theory Spec2Isabelle
  imports Main "HOL-Library.Sublist"
begin

section \<open>BrainSync Pro: the question router and its history log\<close>

text \<open>
  A shallow embedding of the class \<open>ProfessionalQASystem\<close> of \<open>src/app.py\<close>: the method
  \<open>ask_question\<close> (lines 147-189), the prompt templates built by \<open>create_chains\<close>
  (lines 105-145) and the formatter \<open>get_conversation_summary\<close> (lines 191-204).
\<close>

subsection \<open>Python strings\<close>

text \<open>
  A Python \<open>str\<close> is a sequence of Unicode code points, and \<open>len\<close> and slicing count code
  points. The model is a list of code point numbers, so that the emoji of the source's
  literals are one element each (two for the stopwatch, which carries a variation
  selector). \<open>enc\<close> reads an ASCII literal of the source.
\<close>

type_synonym pystr = "nat list"

definition enc :: "string \<Rightarrow> pystr" where
  "enc s = map of_char s"

text \<open>
  The characters that \<open>str.strip()\<close> removes when called without an argument: the ASCII
  whitespace and separators 9-13 and 28-32, and the Unicode whitespace characters.
\<close>

definition is_space :: "nat \<Rightarrow> bool" where
  "is_space c \<longleftrightarrow>
     (9 \<le> c \<and> c \<le> 13) \<or> (28 \<le> c \<and> c \<le> 32) \<or> c = 0x85 \<or> c = 0xA0 \<or> c = 0x1680 \<or>
     (0x2000 \<le> c \<and> c \<le> 0x200A) \<or> c = 0x2028 \<or> c = 0x2029 \<or> c = 0x202F \<or>
     c = 0x205F \<or> c = 0x3000"

text \<open>\<open>s.strip()\<close>: whitespace is dropped from the left end, then from the right end.\<close>

definition strip :: "pystr \<Rightarrow> pystr" where
  "strip s = rev (dropWhile is_space (rev (dropWhile is_space s)))"

text \<open>\<open>str(n)\<close> for a non-negative integer, as an f-string renders \<open>{i}\<close> and \<open>{len(...)}\<close>.\<close>

fun str_nat :: "nat \<Rightarrow> pystr" where
  "str_nat n = (if n < 10 then [48 + n] else str_nat (n div 10) @ [48 + n mod 10])"

declare str_nat.simps [simp del]

text \<open>
  Floating point is outside the embedding. The only float of the program is the
  processing time, \<open>round(time.time() - start_time, 2)\<close>, which is stored and later
  rendered by an f-string; the model identifies such a float with the text \<open>str\<close> gives.
\<close>

datatype pyfloat = Float pystr

fun str_float :: "pyfloat \<Rightarrow> pystr" where
  "str_float (Float r) = r"

subsection \<open>Data model\<close>

text \<open>The dictionary appended to \<open>conversation_history\<close> (lines 176-182), key by key.\<close>

record interaction =
  timestamp :: pystr
  question :: pystr
  answer :: pystr
  processing_time :: pyfloat
  chain_type :: pystr

text \<open>
  The state that the two methods read and write. \<open>conversation_history\<close> is the attribute of
  the object. The other two fields record the effects on the world outside it:
  \<open>llm_calls\<close> is the sequence of filled prompts handed to the model client (\<open>self.llm\<close>, at
  the end of each chain), \<open>console\<close> the lines the two methods print. The configuration, the model
  client and the templates are set once by \<open>__init__\<close> and never assigned again.
\<close>

record system =
  conversation_history :: "interaction list"
  llm_calls :: "pystr list"
  console :: "pystr list"

text \<open>\<open>__init__\<close> (line 87): the history starts empty.\<close>

definition init :: system where
  "init = \<lparr>conversation_history = [], llm_calls = [], console = []\<rparr>"

text \<open>
  What one call of \<open>ask_question\<close> receives from outside the program: the behaviour of the
  model client on a prompt (\<open>Inl\<close> the text \<open>str(e)\<close> of the exception it raises, \<open>Inr\<close> the
  \<open>content\<close> of the response), the text of \<open>datetime.now().strftime(...)\<close>, and the rounded
  elapsed time.
\<close>

record env =
  invoke :: "pystr \<Rightarrow> pystr + pystr"
  now :: pystr
  elapsed :: pyfloat

subsection \<open>Prompt templates\<close>

text \<open>
  \<open>create_chains\<close>, lines 109-138. A \<open>PromptTemplate\<close> replaces each placeholder by the
  value given for it; the three functions below are the three templates with their
  placeholders as arguments. Line breaks are the code point 10.
\<close>

definition qa_template :: "pystr \<Rightarrow> pystr" where
  "qa_template qn =
     enc ''You are a knowledgeable AI assistant. Provide clear, accurate, and helpful answers.''
     @ [10, 10] @ enc ''Question: '' @ qn @ [10, 10]
     @ enc ''Answer: Provide a comprehensive response that is informative and easy to understand.''"

definition creative_template :: "pystr \<Rightarrow> pystr \<Rightarrow> pystr" where
  "creative_template request style =
     enc ''You are a creative writing assistant. Create engaging and imaginative content.''
     @ [10, 10] @ enc ''Request: '' @ request @ [10] @ enc ''Style: '' @ style @ [10, 10]
     @ enc ''Creative Response:''"

definition analysis_template :: "pystr \<Rightarrow> pystr \<Rightarrow> pystr" where
  "analysis_template topic focus =
     enc ''You are a professional analyst. Provide detailed analysis and insights.''
     @ [10, 10] @ enc ''Topic: '' @ topic @ [10] @ enc ''Focus: '' @ focus @ [10, 10]
     @ enc ''Professional Analysis:''"

subsection \<open>The request router\<close>

text \<open>The \<open>if\<close>/\<open>elif\<close> chain of lines 157-170: which prompt goes to the model client.\<close>

definition filled_prompt :: "pystr \<Rightarrow> pystr \<Rightarrow> pystr" where
  "filled_prompt qn ctype =
     (if ctype = enc ''qa'' then qa_template qn
      else if ctype = enc ''creative'' then creative_template qn (enc ''engaging and creative'')
      else if ctype = enc ''analysis'' then analysis_template qn (enc ''comprehensive analysis'')
      else qa_template qn)"

text \<open>
  \<open>ask_question\<close>, lines 147-189. The result is the returned pair and the state after the
  call. The \<open>except\<close> branch builds the message, prints it behind a cross mark (code point
  10060) and returns it.
\<close>

definition ask_question :: "env \<Rightarrow> pystr \<Rightarrow> pystr \<Rightarrow> system \<Rightarrow> (pystr \<times> bool) \<times> system" where
  "ask_question e qn ctype s =
     (if strip qn = [] then ((enc ''Please enter a valid question.'', False), s)
      else
        let prompt = filled_prompt qn ctype;
            s1 = s\<lparr>llm_calls := llm_calls s @ [prompt]\<rparr>
        in case invoke e prompt of
             Inr content \<Rightarrow>
               ((content, True),
                s1\<lparr>conversation_history := conversation_history s1 @
                   [\<lparr>timestamp = now e, question = qn, answer = content,
                     processing_time = elapsed e, chain_type = ctype\<rparr>]\<rparr>)
           | Inl err \<Rightarrow>
               let error_msg = enc ''Error processing question: '' @ err
               in ((error_msg, False), s1\<lparr>console := console s1 @ [[10060, 32] @ error_msg]\<rparr>))"

subsection \<open>The history formatter\<close>

text \<open>\<open>xs[-k:]\<close>: the last \<open>k\<close> elements, all of them when there are fewer.\<close>

definition last_slice :: "nat \<Rightarrow> 'a list \<Rightarrow> 'a list" where
  "last_slice k xs = (if length xs \<le> k then xs else drop (length xs - k) xs)"

text \<open>The body of the \<open>for\<close> loop, lines 199-202: the four lines added for one record.\<close>

definition summary_entry :: "nat \<Rightarrow> interaction \<Rightarrow> pystr" where
  "summary_entry i r =
     enc ''**'' @ str_nat i @ enc ''. ['' @ timestamp r @ enc '']**'' @ [10]
     @ [10067] @ enc '' **Q:** '' @ take 100 (question r)
       @ (if length (question r) > 100 then enc ''...'' else []) @ [10]
     @ [9989] @ enc '' **A:** '' @ take 150 (answer r)
       @ (if length (answer r) > 150 then enc ''...'' else []) @ [10]
     @ [9201, 65039] @ enc '' *Processing time: '' @ str_float (processing_time r) @ enc ''s*''
       @ [10, 10]"

text \<open>
  The loop over \<open>enumerate(..., 1)\<close>, with \<open>summary\<close> as the accumulator, and the first
  line of the text (line 196), which the accumulator starts from.
\<close>

fun summary_loop :: "pystr \<Rightarrow> (nat \<times> interaction) list \<Rightarrow> pystr" where
  "summary_loop summary [] = summary"
| "summary_loop summary ((i, r) # rest) = summary_loop (summary @ summary_entry i r) rest"

text \<open>
  \<open>get_conversation_summary\<close>, lines 191-204: the returned text and the state after the
  call. The method assigns to no attribute and prints nothing.
\<close>

definition summary_header :: "nat \<Rightarrow> pystr" where
  "summary_header n =
     [128202] @ enc '' **Conversation Summary** ('' @ str_nat n @ enc '' interactions)''
     @ [10, 10]"

definition get_conversation_summary :: "system \<Rightarrow> pystr \<times> system" where
  "get_conversation_summary s =
     (if conversation_history s = [] then (enc ''No conversation history available.'', s)
      else
        let summary = summary_header (length (conversation_history s))
        in (summary_loop summary (enumerate 1 (last_slice 5 (conversation_history s))), s))"

subsection \<open>Sessions\<close>

text \<open>
  A session is a sequence of calls of the two methods on one object, as the user interface
  and the command line loop make them. \<open>run\<close> performs them in order and collects what each
  returned.
\<close>

datatype call = Ask env pystr pystr | Summary

datatype outcome = Asked pystr bool | Summarised pystr

fun perform :: "call \<Rightarrow> system \<Rightarrow> outcome \<times> system" where
  "perform (Ask e qn ctype) s =
     (case ask_question e qn ctype s of ((text, ok), s') \<Rightarrow> (Asked text ok, s'))"
| "perform Summary s =
     (case get_conversation_summary s of (text, s') \<Rightarrow> (Summarised text, s'))"

fun run :: "system \<Rightarrow> call list \<Rightarrow> outcome list \<times> system" where
  "run s [] = ([], s)"
| "run s (c # cs) =
     (case perform c s of (out, s') \<Rightarrow>
        (case run s' cs of (outs, s'') \<Rightarrow> (out # outs, s'')))"

fun succeeded :: "outcome \<Rightarrow> bool" where
  "succeeded (Asked text ok) = ok"
| "succeeded (Summarised text) = False"

section \<open>Properties\<close>

subsection \<open>Strings\<close>

lemma strip_empty_iff: "strip s = [] \<longleftrightarrow> (\<forall>c \<in> set s. is_space c)"
proof -
  have "strip s = [] \<longleftrightarrow> dropWhile is_space (rev (dropWhile is_space s)) = []"
    by (simp add: strip_def)
  also have "\<dots> \<longleftrightarrow> (\<forall>c \<in> set (dropWhile is_space s). is_space c)"
    by (simp add: dropWhile_eq_Nil_conv)
  also have "\<dots> \<longleftrightarrow> (\<forall>c \<in> set s. is_space c)"
  proof
    assume h: "\<forall>c \<in> set (dropWhile is_space s). is_space c"
    show "\<forall>c \<in> set s. is_space c"
    proof (cases "dropWhile is_space s")
      case Nil
      then show ?thesis by (simp add: dropWhile_eq_Nil_conv)
    next
      case (Cons c cs)
      then have "\<not> is_space c" by (metis hd_dropWhile list.sel(1) list.distinct(1))
      moreover have "is_space c" using h Cons by simp
      ultimately show ?thesis by contradiction
    qed
  next
    assume "\<forall>c \<in> set s. is_space c"
    then show "\<forall>c \<in> set (dropWhile is_space s). is_space c"
      using set_dropWhileD by (metis)
  qed
  finally show ?thesis .
qed

lemma exists_non_space: "(\<exists>c \<in> set s. \<not> is_space c) \<longleftrightarrow> strip s \<noteq> []"
  by (simp add: strip_empty_iff)

subsection \<open>The request router\<close>

lemma ask_question_blank:
  "strip qn = [] \<Longrightarrow>
   ask_question e qn ctype s = ((enc ''Please enter a valid question.'', False), s)"
  by (simp add: ask_question_def)

lemma ask_question_ok:
  "strip qn \<noteq> [] \<Longrightarrow> invoke e (filled_prompt qn ctype) = Inr content \<Longrightarrow>
   ask_question e qn ctype s =
     ((content, True),
      s\<lparr>llm_calls := llm_calls s @ [filled_prompt qn ctype],
        conversation_history := conversation_history s @
          [\<lparr>timestamp = now e, question = qn, answer = content,
            processing_time = elapsed e, chain_type = ctype\<rparr>]\<rparr>)"
  by (simp add: ask_question_def Let_def)

lemma ask_question_failed:
  "strip qn \<noteq> [] \<Longrightarrow> invoke e (filled_prompt qn ctype) = Inl err \<Longrightarrow>
   ask_question e qn ctype s =
     ((enc ''Error processing question: '' @ err, False),
      s\<lparr>llm_calls := llm_calls s @ [filled_prompt qn ctype],
        console := console s @ [[10060, 32] @ enc ''Error processing question: '' @ err]\<rparr>)"
  by (simp add: ask_question_def Let_def)

text \<open>
  C1. A question that is not blank, on which the model client returns a response: the
  call returns the response's text with \<open>True\<close>, and the history is the old history with
  one record appended, whose \<open>chain_type\<close> is the requested mode and whose \<open>question\<close> is
  the input string as given.
\<close>

theorem ask_question_success_appends:
  assumes "\<exists>c \<in> set qn. \<not> is_space c"
    and "invoke e (filled_prompt qn ctype) = Inr content"
  shows "fst (ask_question e qn ctype s) = (content, True) \<and>
         length (conversation_history (snd (ask_question e qn ctype s)))
           = length (conversation_history s) + 1 \<and>
         (\<exists>r. conversation_history (snd (ask_question e qn ctype s))
                = conversation_history s @ [r] \<and>
              chain_type r = ctype \<and> question r = qn \<and> answer r = content)"
proof -
  from assms(1) have "strip qn \<noteq> []"
    by (simp add: exists_non_space)
  from ask_question_ok [OF this assms(2)] show ?thesis
    by simp
qed

theorem ask_question_success_appends_witness:
  "(\<exists>c \<in> set (enc ''What is AI?''). \<not> is_space c) \<and>
   invoke \<lparr>invoke = (\<lambda>p. Inr (enc ''A field of study.'')), now = enc ''2024-05-01 10:00:00'',
           elapsed = Float (enc ''1.23'')\<rparr>
     (filled_prompt (enc ''What is AI?'') (enc ''qa'')) = Inr (enc ''A field of study.'') \<and>
   fst (ask_question \<lparr>invoke = (\<lambda>p. Inr (enc ''A field of study.'')),
           now = enc ''2024-05-01 10:00:00'', elapsed = Float (enc ''1.23'')\<rparr>
         (enc ''What is AI?'') (enc ''qa'') init) = (enc ''A field of study.'', True) \<and>
   conversation_history (snd (ask_question \<lparr>invoke = (\<lambda>p. Inr (enc ''A field of study.'')),
           now = enc ''2024-05-01 10:00:00'', elapsed = Float (enc ''1.23'')\<rparr>
         (enc ''What is AI?'') (enc ''qa'') init))
   = [\<lparr>timestamp = enc ''2024-05-01 10:00:00'', question = enc ''What is AI?'',
       answer = enc ''A field of study.'', processing_time = Float (enc ''1.23''),
       chain_type = enc ''qa''\<rparr>]"
proof -
  have h1: "\<exists>c \<in> set (enc ''What is AI?''). \<not> is_space c"
    by (simp add: enc_def is_space_def)
  have h2: "invoke \<lparr>invoke = (\<lambda>p. Inr (enc ''A field of study.'')),
           now = enc ''2024-05-01 10:00:00'', elapsed = Float (enc ''1.23'')\<rparr>
     (filled_prompt (enc ''What is AI?'') (enc ''qa'')) = Inr (enc ''A field of study.'')"
    by simp
  have ne: "strip (enc ''What is AI?'') \<noteq> []"
    using h1 by (simp add: exists_non_space)
  have a: "fst (ask_question \<lparr>invoke = (\<lambda>p. Inr (enc ''A field of study.'')),
           now = enc ''2024-05-01 10:00:00'', elapsed = Float (enc ''1.23'')\<rparr>
         (enc ''What is AI?'') (enc ''qa'') init) = (enc ''A field of study.'', True)"
    using ask_question_success_appends [OF h1 h2, of init] by (rule conjunct1)
  have b: "conversation_history (snd (ask_question \<lparr>invoke = (\<lambda>p. Inr (enc ''A field of study.'')),
           now = enc ''2024-05-01 10:00:00'', elapsed = Float (enc ''1.23'')\<rparr>
         (enc ''What is AI?'') (enc ''qa'') init))
     = [\<lparr>timestamp = enc ''2024-05-01 10:00:00'', question = enc ''What is AI?'',
       answer = enc ''A field of study.'', processing_time = Float (enc ''1.23''),
       chain_type = enc ''qa''\<rparr>]"
    by (simp add: ask_question_ok [OF ne h2] init_def)
  from h1 h2 a b show ?thesis
    by (intro conjI)
qed

text \<open>
  C2. A question that is empty or all whitespace, under any mode: the call returns the
  fixed message with \<open>False\<close> and the state is the state before the call, so nothing was
  handed to the model client and the history is as it was.
\<close>

theorem ask_question_blank_rejected:
  assumes "\<forall>c \<in> set qn. is_space c"
  shows "fst (ask_question e qn ctype s) = (enc ''Please enter a valid question.'', False) \<and>
         llm_calls (snd (ask_question e qn ctype s)) = llm_calls s \<and>
         conversation_history (snd (ask_question e qn ctype s)) = conversation_history s \<and>
         snd (ask_question e qn ctype s) = s"
proof -
  from assms have "strip qn = []"
    by (simp add: strip_empty_iff)
  then show ?thesis
    by (simp add: ask_question_blank)
qed

theorem ask_question_blank_rejected_witness:
  "list_all is_space (enc ''  '') \<and>
   ask_question \<lparr>invoke = (\<lambda>p. Inr (enc ''never'')), now = [], elapsed = Float []\<rparr>
     (enc ''  '') (enc ''creative'') init
   = ((enc ''Please enter a valid question.'', False), init)"
proof -
  have h: "\<forall>c \<in> set (enc ''  ''). is_space c"
    by (simp add: enc_def is_space_def)
  from ask_question_blank_rejected [OF h, of _ "enc ''creative''" init] h show ?thesis
    by (simp add: prod_eq_iff list_all_iff)
qed

text \<open>
  C3. A question that is not blank (a blank one never reaches the model client), on which
  the model client raises an error: the call returns \<open>False\<close> with a message that contains
  the text of the error, and the history is exactly the history before the call.
\<close>

theorem ask_question_failure_keeps_history:
  assumes "\<exists>c \<in> set qn. \<not> is_space c"
    and "invoke e (filled_prompt qn ctype) = Inl err"
  shows "snd (fst (ask_question e qn ctype s)) = False \<and>
         sublist err (fst (fst (ask_question e qn ctype s))) \<and>
         conversation_history (snd (ask_question e qn ctype s)) = conversation_history s"
proof -
  from assms(1) have "strip qn \<noteq> []"
    by (simp add: exists_non_space)
  from ask_question_failed [OF this assms(2)] show ?thesis
    by simp
qed

theorem ask_question_failure_keeps_history_witness:
  "(\<exists>c \<in> set (enc ''Why?''). \<not> is_space c) \<and>
   invoke \<lparr>invoke = (\<lambda>p. Inl (enc ''timeout'')), now = [], elapsed = Float []\<rparr>
     (filled_prompt (enc ''Why?'') (enc ''analysis'')) = Inl (enc ''timeout'') \<and>
   snd (fst (ask_question \<lparr>invoke = (\<lambda>p. Inl (enc ''timeout'')), now = [], elapsed = Float []\<rparr>
     (enc ''Why?'') (enc ''analysis'') init)) = False \<and>
   conversation_history (snd (ask_question
     \<lparr>invoke = (\<lambda>p. Inl (enc ''timeout'')), now = [], elapsed = Float []\<rparr>
     (enc ''Why?'') (enc ''analysis'') init)) = []"
proof -
  have h1: "\<exists>c \<in> set (enc ''Why?''). \<not> is_space c"
    by (simp add: enc_def is_space_def)
  have h2: "invoke \<lparr>invoke = (\<lambda>p. Inl (enc ''timeout'')), now = [], elapsed = Float []\<rparr>
     (filled_prompt (enc ''Why?'') (enc ''analysis'')) = Inl (enc ''timeout'')"
    by simp
  from ask_question_failure_keeps_history [OF h1 h2, of init] h1 h2 show ?thesis
    by (simp add: init_def)
qed

text \<open>
  C4, as stated: the message returned on a failure of the model client is the error's text
  with nothing added. It is not: for the error text \<open>quota exceeded\<close> the call returns
  \<open>Error processing question: quota exceeded\<close>.
\<close>

theorem ask_question_failure_not_verbatim:
  "fst (fst (ask_question
      \<lparr>invoke = (\<lambda>p. Inl (enc ''quota exceeded'')), now = [], elapsed = Float []\<rparr>
      (enc ''hi'') (enc ''qa'') init))
   \<noteq> enc ''quota exceeded''"
  by (simp add: ask_question_def strip_def is_space_def enc_def Let_def)

text \<open>
  C4, amended. The message returned on a failure of the model client is the fixed prefix
  \<open>Error processing question: \<close> followed by the error's text, unchanged.
\<close>

theorem ask_question_failure_message:
  assumes "\<exists>c \<in> set qn. \<not> is_space c"
    and "invoke e (filled_prompt qn ctype) = Inl err"
  shows "fst (fst (ask_question e qn ctype s)) = enc ''Error processing question: '' @ err"
proof -
  from assms(1) have "strip qn \<noteq> []"
    by (simp add: exists_non_space)
  from ask_question_failed [OF this assms(2)] show ?thesis
    by simp
qed

theorem ask_question_failure_message_witness:
  "(\<exists>c \<in> set (enc ''hi''). \<not> is_space c) \<and>
   invoke \<lparr>invoke = (\<lambda>p. Inl (enc ''quota exceeded'')), now = [], elapsed = Float []\<rparr>
     (filled_prompt (enc ''hi'') (enc ''qa'')) = Inl (enc ''quota exceeded'') \<and>
   fst (fst (ask_question
      \<lparr>invoke = (\<lambda>p. Inl (enc ''quota exceeded'')), now = [], elapsed = Float []\<rparr>
      (enc ''hi'') (enc ''qa'') init))
   = enc ''Error processing question: quota exceeded''"
proof -
  have h1: "\<exists>c \<in> set (enc ''hi''). \<not> is_space c"
    by (simp add: enc_def is_space_def)
  have h2: "invoke \<lparr>invoke = (\<lambda>p. Inl (enc ''quota exceeded'')), now = [], elapsed = Float []\<rparr>
     (filled_prompt (enc ''hi'') (enc ''qa'')) = Inl (enc ''quota exceeded'')"
    by simp
  from ask_question_failure_message [OF h1 h2, of init] h1 h2 show ?thesis
    by (simp add: enc_def)
qed

text \<open>
  C6. A mode that is none of \<open>qa\<close>, \<open>creative\<close>, \<open>analysis\<close>, with a question that is not
  blank: the prompt handed to the model client is the filled \<open>qa\<close> template, the same
  prompt that a call with mode \<open>qa\<close> hands over, and the call returns what that call
  returns.
\<close>

theorem unknown_mode_uses_qa_template:
  assumes "\<exists>c \<in> set qn. \<not> is_space c"
    and "ctype \<noteq> enc ''qa''" and "ctype \<noteq> enc ''creative''" and "ctype \<noteq> enc ''analysis''"
  shows "llm_calls (snd (ask_question e qn ctype s)) = llm_calls s @ [qa_template qn] \<and>
         llm_calls (snd (ask_question e qn ctype s))
           = llm_calls (snd (ask_question e qn (enc ''qa'') s)) \<and>
         fst (ask_question e qn ctype s) = fst (ask_question e qn (enc ''qa'') s)"
proof -
  from assms(1) have ne: "strip qn \<noteq> []"
    by (simp add: exists_non_space)
  have p: "filled_prompt qn ctype = qa_template qn"
    using assms(2-4) by (simp add: filled_prompt_def)
  have q: "filled_prompt qn (enc ''qa'') = qa_template qn"
    by (simp add: filled_prompt_def)
  show ?thesis
    using ne by (simp add: ask_question_def Let_def p q split: sum.split)
qed

theorem unknown_mode_uses_qa_template_witness:
  "(\<exists>c \<in> set (enc ''hi''). \<not> is_space c) \<and>
   enc ''poem'' \<noteq> enc ''qa'' \<and> enc ''poem'' \<noteq> enc ''creative'' \<and>
   enc ''poem'' \<noteq> enc ''analysis'' \<and>
   llm_calls (snd (ask_question \<lparr>invoke = (\<lambda>p. Inr p), now = [], elapsed = Float []\<rparr>
     (enc ''hi'') (enc ''poem'') init)) = [qa_template (enc ''hi'')] \<and>
   fst (ask_question \<lparr>invoke = (\<lambda>p. Inr p), now = [], elapsed = Float []\<rparr>
     (enc ''hi'') (enc ''poem'') init)
   = fst (ask_question \<lparr>invoke = (\<lambda>p. Inr p), now = [], elapsed = Float []\<rparr>
     (enc ''hi'') (enc ''qa'') init)"
proof -
  have h1: "\<exists>c \<in> set (enc ''hi''). \<not> is_space c"
    by (simp add: enc_def is_space_def)
  have h2: "enc ''poem'' \<noteq> enc ''qa''" and h3: "enc ''poem'' \<noteq> enc ''creative''"
    and h4: "enc ''poem'' \<noteq> enc ''analysis''"
    by (simp_all add: enc_def)
  from unknown_mode_uses_qa_template [OF h1 h2 h3 h4, of _ init] h1 h2 h3 h4 show ?thesis
    by (simp add: init_def)
qed

text \<open>
  C7. A question that is not blank: under mode \<open>creative\<close> the prompt handed to the model
  client contains the question and the text \<open>engaging and creative\<close>; under mode
  \<open>analysis\<close> it contains the question and the text \<open>comprehensive analysis\<close>.
\<close>

theorem styled_prompts_contain_constants:
  assumes "\<exists>c \<in> set qn. \<not> is_space c"
  shows "(\<exists>p. llm_calls (snd (ask_question e qn (enc ''creative'') s)) = llm_calls s @ [p] \<and>
              sublist qn p \<and> sublist (enc ''engaging and creative'') p) \<and>
         (\<exists>p. llm_calls (snd (ask_question e qn (enc ''analysis'') s)) = llm_calls s @ [p] \<and>
              sublist qn p \<and> sublist (enc ''comprehensive analysis'') p)"
proof -
  from assms have ne: "strip qn \<noteq> []"
    by (simp add: exists_non_space)
  have c: "filled_prompt qn (enc ''creative'')
             = creative_template qn (enc ''engaging and creative'')"
    by (simp add: filled_prompt_def enc_def)
  have a: "filled_prompt qn (enc ''analysis'')
             = analysis_template qn (enc ''comprehensive analysis'')"
    by (simp add: filled_prompt_def enc_def)
  have sent: "llm_calls (snd (ask_question e qn ctype s)) = llm_calls s @ [filled_prompt qn ctype]"
    for ctype
    using ne by (simp add: ask_question_def Let_def split: sum.split)
  have c1: "sublist qn (creative_template qn st)" for st
    unfolding sublist_def creative_template_def
    by (metis append.assoc)
  have c2: "sublist st (creative_template qn st)" for st
    unfolding sublist_def creative_template_def
    by (metis append.assoc)
  have a1: "sublist qn (analysis_template qn st)" for st
    unfolding sublist_def analysis_template_def
    by (metis append.assoc)
  have a2: "sublist st (analysis_template qn st)" for st
    unfolding sublist_def analysis_template_def
    by (metis append.assoc)
  show ?thesis
    by (simp add: sent c a c1 c2 a1 a2)
qed

theorem styled_prompts_contain_constants_witness:
  "(\<exists>c \<in> set (enc ''a cat''). \<not> is_space c) \<and>
   (\<exists>p. llm_calls (snd (ask_question \<lparr>invoke = (\<lambda>p. Inr p), now = [], elapsed = Float []\<rparr>
          (enc ''a cat'') (enc ''creative'') init)) = [p] \<and>
        sublist (enc ''a cat'') p \<and> sublist (enc ''engaging and creative'') p) \<and>
   (\<exists>p. llm_calls (snd (ask_question \<lparr>invoke = (\<lambda>p. Inr p), now = [], elapsed = Float []\<rparr>
          (enc ''a cat'') (enc ''analysis'') init)) = [p] \<and>
        sublist (enc ''a cat'') p \<and> sublist (enc ''comprehensive analysis'') p)"
proof -
  have h: "\<exists>c \<in> set (enc ''a cat''). \<not> is_space c"
    by (simp add: enc_def is_space_def)
  have i: "llm_calls init = []"
    by (simp add: init_def)
  from styled_prompts_contain_constants [OF h, of _ init] h show ?thesis
    unfolding i append_Nil by blast
qed

subsection \<open>Sessions\<close>

lemma ask_question_history:
  "conversation_history (snd (ask_question e qn ctype s)) =
     (if snd (fst (ask_question e qn ctype s))
      then conversation_history s @
        [\<lparr>timestamp = now e, question = qn, answer = fst (fst (ask_question e qn ctype s)),
          processing_time = elapsed e, chain_type = ctype\<rparr>]
      else conversation_history s)"
  by (simp add: ask_question_def Let_def split: sum.split)

lemma perform_history_length:
  "length (conversation_history (snd (perform c s))) =
     length (conversation_history s) + (if succeeded (fst (perform c s)) then 1 else 0)"
proof (cases c)
  case (Ask e qn ctype)
  obtain msg ok s' where a: "ask_question e qn ctype s = ((msg, ok), s')"
    by (metis prod.exhaust)
  from ask_question_history [of e qn ctype s] a
  have "length (conversation_history s') = length (conversation_history s) + (if ok then 1 else 0)"
    by (simp split: if_splits)
  then show ?thesis
    by (simp add: Ask a)
next
  case Summary
  then show ?thesis
    by (simp add: get_conversation_summary_def Let_def)
qed

lemma run_history_length:
  "length (conversation_history (snd (run s cs))) =
     length (conversation_history s) + length (filter succeeded (fst (run s cs)))"
proof (induction cs arbitrary: s)
  case Nil
  show ?case by simp
next
  case (Cons c cs)
  obtain out s' where p: "perform c s = (out, s')"
    by (cases "perform c s")
  obtain outs s'' where r: "run s' cs = (outs, s'')"
    by (cases "run s' cs")
  from perform_history_length [of c s] p
  have 1: "length (conversation_history s') =
             length (conversation_history s) + (if succeeded out then 1 else 0)"
    by simp
  from Cons.IH [of s'] r
  have 2: "length (conversation_history s'') =
             length (conversation_history s') + length (filter succeeded outs)"
    by simp
  show ?case
    using 1 2 by (simp add: p r)
qed

text \<open>
  C5. After any sequence of calls on a fresh object, the length of the history is the
  number of \<open>ask_question\<close> calls that returned \<open>True\<close>; and in any state, a call of
  \<open>ask_question\<close> that returns \<open>False\<close> leaves the history as it was.
\<close>

theorem history_length_counts_successes:
  "length (conversation_history (snd (run init cs))) = length (filter succeeded (fst (run init cs)))
   \<and> (\<not> snd (fst (ask_question e qn ctype s)) \<longrightarrow>
        conversation_history (snd (ask_question e qn ctype s)) = conversation_history s)"
proof
  show "length (conversation_history (snd (run init cs)))
          = length (filter succeeded (fst (run init cs)))"
    using run_history_length [of init cs] by (simp add: init_def)
  show "\<not> snd (fst (ask_question e qn ctype s)) \<longrightarrow>
        conversation_history (snd (ask_question e qn ctype s)) = conversation_history s"
    using ask_question_history [of e qn ctype s] by simp
qed

theorem history_length_counts_successes_witness:
  "length (conversation_history (snd (run init
      [Ask \<lparr>invoke = (\<lambda>p. Inr (enc ''fine'')), now = [], elapsed = Float []\<rparr> (enc ''one'') (enc ''qa''),
       Ask \<lparr>invoke = (\<lambda>p. Inl (enc ''down'')), now = [], elapsed = Float []\<rparr> (enc ''two'') (enc ''qa''),
       Ask \<lparr>invoke = (\<lambda>p. Inr (enc ''fine'')), now = [], elapsed = Float []\<rparr> (enc '' '') (enc ''creative''),
       Summary,
       Ask \<lparr>invoke = (\<lambda>p. Inr (enc ''fine'')), now = [], elapsed = Float []\<rparr> (enc ''three'') (enc ''other'')])))
   = 2 \<and>
   \<not> snd (fst (ask_question \<lparr>invoke = (\<lambda>p. Inl (enc ''down'')), now = [], elapsed = Float []\<rparr>
     (enc ''two'') (enc ''qa'') init)) \<and>
   conversation_history (snd (ask_question
     \<lparr>invoke = (\<lambda>p. Inl (enc ''down'')), now = [], elapsed = Float []\<rparr>
     (enc ''two'') (enc ''qa'') init)) = []"
proof -
  have s: "strip (enc ''one'') \<noteq> []" "strip (enc ''two'') \<noteq> []" "strip (enc ''three'') \<noteq> []"
    "strip (enc '' '') = []"
    by (simp_all add: strip_def enc_def is_space_def)
  have f: "\<not> snd (fst (ask_question \<lparr>invoke = (\<lambda>p. Inl (enc ''down'')), now = [], elapsed = Float []\<rparr>
     (enc ''two'') (enc ''qa'') init))"
    by (simp add: ask_question_failed [OF s(2)])
  have n: "length (filter succeeded (fst (run init
      [Ask \<lparr>invoke = (\<lambda>p. Inr (enc ''fine'')), now = [], elapsed = Float []\<rparr> (enc ''one'') (enc ''qa''),
       Ask \<lparr>invoke = (\<lambda>p. Inl (enc ''down'')), now = [], elapsed = Float []\<rparr> (enc ''two'') (enc ''qa''),
       Ask \<lparr>invoke = (\<lambda>p. Inr (enc ''fine'')), now = [], elapsed = Float []\<rparr> (enc '' '') (enc ''creative''),
       Summary,
       Ask \<lparr>invoke = (\<lambda>p. Inr (enc ''fine'')), now = [], elapsed = Float []\<rparr> (enc ''three'') (enc ''other'')])))
    = 2"
    by (simp add: ask_question_failed [OF s(2)] ask_question_ok [OF s(1)] ask_question_ok [OF s(3)]
        ask_question_blank [OF s(4)] get_conversation_summary_def Let_def)
  from history_length_counts_successes [of
      "[Ask \<lparr>invoke = (\<lambda>p. Inr (enc ''fine'')), now = [], elapsed = Float []\<rparr> (enc ''one'') (enc ''qa''),
       Ask \<lparr>invoke = (\<lambda>p. Inl (enc ''down'')), now = [], elapsed = Float []\<rparr> (enc ''two'') (enc ''qa''),
       Ask \<lparr>invoke = (\<lambda>p. Inr (enc ''fine'')), now = [], elapsed = Float []\<rparr> (enc '' '') (enc ''creative''),
       Summary,
       Ask \<lparr>invoke = (\<lambda>p. Inr (enc ''fine'')), now = [], elapsed = Float []\<rparr> (enc ''three'') (enc ''other'')]"
      "\<lparr>invoke = (\<lambda>p. Inl (enc ''down'')), now = [], elapsed = Float []\<rparr>" "enc ''two''" "enc ''qa''" init]
    f n
  show ?thesis
    by (simp add: init_def)
qed

subsection \<open>The history formatter\<close>

lemma summary_loop_concat:
  "summary_loop acc xs = acc @ concat (map (\<lambda>(i, r). summary_entry i r) xs)"
  by (induction xs arbitrary: acc) auto

lemma length_last_slice: "length (last_slice k xs) = min k (length xs)"
  by (simp add: last_slice_def)

lemma nth_last_slice:
  "j < min k (length xs) \<Longrightarrow> last_slice k xs ! j = xs ! (length xs - min k (length xs) + j)"
  by (simp add: last_slice_def min_def)

lemma entries_by_index:
  "map (\<lambda>(i, r). summary_entry i r) (enumerate 1 xs)
     = map (\<lambda>j. summary_entry (j + 1) (xs ! j)) [0..<length xs]"
  by (rule nth_equalityI) (simp_all add: nth_enumerate_eq)

lemma summary_text:
  assumes "conversation_history s \<noteq> []"
  shows "fst (get_conversation_summary s) =
           summary_header (length (conversation_history s)) @
           concat (map (\<lambda>j. summary_entry (j + 1)
                     (conversation_history s !
                        (length (conversation_history s) - min 5 (length (conversation_history s)) + j)))
                   [0..<min 5 (length (conversation_history s))])"
proof -
  let ?h = "conversation_history s"
  let ?m = "min 5 (length ?h)"
  have "map (\<lambda>(i, r). summary_entry i r) (enumerate 1 (last_slice 5 ?h))
          = map (\<lambda>j. summary_entry (j + 1) (last_slice 5 ?h ! j)) [0..<?m]"
    by (simp only: entries_by_index length_last_slice)
  also have "\<dots> = map (\<lambda>j. summary_entry (j + 1) (?h ! (length ?h - ?m + j))) [0..<?m]"
    by (rule map_cong) (simp_all only: nth_last_slice atLeastLessThan_iff set_upt)
  finally show ?thesis
    using assms by (simp add: get_conversation_summary_def Let_def summary_loop_concat)
qed

lemma summary_of_seven:
  "conversation_history s = [r1, r2, r3, r4, r5, r6, r7] \<Longrightarrow>
   fst (get_conversation_summary s) =
     summary_header 7 @ summary_entry 1 r3 @ summary_entry 2 r4 @ summary_entry 3 r5 @
     summary_entry 4 r6 @ summary_entry 5 r7"
  by (simp add: get_conversation_summary_def Let_def last_slice_def enumerate_eq_zip upt_rec
      eval_nat_numeral)

lemma entry_in_summary:
  assumes "r \<in> set (last_slice 5 (conversation_history s))"
  shows "\<exists>i \<in> {1..5}. sublist (summary_entry i r) (fst (get_conversation_summary s))"
proof -
  let ?h = "conversation_history s"
  from assms have ne: "?h \<noteq> []"
    by (auto simp: last_slice_def)
  from assms obtain j where j: "j < length (last_slice 5 ?h)" and r: "last_slice 5 ?h ! j = r"
    by (auto simp: in_set_conv_nth)
  have jn: "(j + 1, r) \<in> set (enumerate 1 (last_slice 5 ?h))"
    using j r by (auto simp: in_set_conv_nth nth_enumerate_eq intro!: exI[of _ j])
  then obtain ps ss where "enumerate 1 (last_slice 5 ?h) = ps @ (j + 1, r) # ss"
    by (auto simp: in_set_conv_decomp)
  then have "fst (get_conversation_summary s) =
        (summary_header (length ?h) @ concat (map (\<lambda>(i, r). summary_entry i r) ps))
        @ summary_entry (j + 1) r @ concat (map (\<lambda>(i, r). summary_entry i r) ss)"
    using ne by (simp add: get_conversation_summary_def Let_def summary_loop_concat)
  then have "sublist (summary_entry (j + 1) r) (fst (get_conversation_summary s))"
    unfolding sublist_def by blast
  moreover have "j + 1 \<in> {1..5}"
    using j by (simp add: length_last_slice)
  ultimately show ?thesis
    by blast
qed

lemma shown_text:
  "take k t @ (if length t > k then e else []) = (if length t \<le> k then t else take k t @ e)"
  by simp

lemma str_nat_digit: "n < 10 \<Longrightarrow> str_nat n = [48 + n]"
  by (simp add: str_nat.simps)

lemma str_nat_small:
  "str_nat 1 = enc ''1''" "str_nat 2 = enc ''2''" "str_nat 3 = enc ''3''"
  "str_nat 4 = enc ''4''" "str_nat 5 = enc ''5''" "str_nat 7 = enc ''7''"
  by (simp_all add: str_nat.simps enc_def)

text \<open>
  C8. On an empty history the formatter returns the fixed message. On a history of \<open>n > 0\<close>
  records it returns the heading followed by \<open>min 5 n\<close> entries and nothing else: for
  \<open>j = 0, \<dots>, min 5 n - 1\<close>, the entry at position \<open>j\<close> carries the number \<open>j + 1\<close> (one
  digit, the code point of \<open>1\<close> plus \<open>j\<close>) and renders record \<open>n - min 5 n + j\<close> of the
  history with its four lines, so the entries are the last \<open>min 5 n\<close> records, oldest first,
  numbered from 1. On seven records the text is the heading and the third to the seventh
  record, numbered 1 to 5. The text of an entry is written out in the statement.
\<close>

theorem summary_shows_last_five:
  "(let h = conversation_history s; n = length h; m = min 5 n;
        entry = (\<lambda>num r.
            enc ''**'' @ num @ enc ''. ['' @ timestamp r @ enc '']**'' @ [10]
            @ [10067] @ enc '' **Q:** '' @ take 100 (question r)
              @ (if length (question r) > 100 then enc ''...'' else []) @ [10]
            @ [9989] @ enc '' **A:** '' @ take 150 (answer r)
              @ (if length (answer r) > 150 then enc ''...'' else []) @ [10]
            @ [9201, 65039] @ enc '' *Processing time: '' @ str_float (processing_time r)
              @ enc ''s*'' @ [10, 10])
    in (h = [] \<longrightarrow>
          fst (get_conversation_summary s) = enc ''No conversation history available.'') \<and>
       (h \<noteq> [] \<longrightarrow>
          fst (get_conversation_summary s) =
            [128202] @ enc '' **Conversation Summary** ('' @ str_nat n @ enc '' interactions)''
            @ [10, 10]
            @ concat (map (\<lambda>j. entry [49 + j] (h ! (n - m + j))) [0..<m])) \<and>
       (h = [r1, r2, r3, r4, r5, r6, r7] \<longrightarrow>
          fst (get_conversation_summary s) =
            [128202] @ enc '' **Conversation Summary** (7 interactions)'' @ [10, 10]
            @ entry (enc ''1'') r3 @ entry (enc ''2'') r4 @ entry (enc ''3'') r5
            @ entry (enc ''4'') r6 @ entry (enc ''5'') r7))"
proof -
  let ?h = "conversation_history s"
  let ?m = "min 5 (length ?h)"
  let ?entry = "(\<lambda>num r.
            enc ''**'' @ num @ enc ''. ['' @ timestamp r @ enc '']**'' @ [10]
            @ [10067] @ enc '' **Q:** '' @ take 100 (question r)
              @ (if length (question r) > 100 then enc ''...'' else []) @ [10]
            @ [9989] @ enc '' **A:** '' @ take 150 (answer r)
              @ (if length (answer r) > 150 then enc ''...'' else []) @ [10]
            @ [9201, 65039] @ enc '' *Processing time: '' @ str_float (processing_time r)
              @ enc ''s*'' @ [10, 10])"
  have e: "summary_entry i r = ?entry (str_nat i) r" for i r
    by (simp add: summary_entry_def)
  have 1: "fst (get_conversation_summary s) = enc ''No conversation history available.''"
    if "?h = []"
    using that by (simp add: get_conversation_summary_def)
  have eq: "map (\<lambda>j. summary_entry (j + 1) (?h ! (length ?h - ?m + j))) [0..<?m]
          = map (\<lambda>j. ?entry [49 + j] (?h ! (length ?h - ?m + j))) [0..<?m]"
    by (rule map_cong) (simp_all add: e str_nat_digit)
  have 2: "fst (get_conversation_summary s) =
            [128202] @ enc '' **Conversation Summary** ('' @ str_nat (length ?h)
            @ enc '' interactions)'' @ [10, 10]
            @ concat (map (\<lambda>j. ?entry [49 + j] (?h ! (length ?h - ?m + j))) [0..<?m])"
    if "?h \<noteq> []"
    unfolding summary_text [OF that] eq summary_header_def by (simp only: append_assoc)
  have h7: "summary_header 7 = [128202] @ enc '' **Conversation Summary** (7 interactions)'' @ [10, 10]"
    by (simp add: summary_header_def str_nat_small enc_def)
  have 3: "fst (get_conversation_summary s) =
            [128202] @ enc '' **Conversation Summary** (7 interactions)'' @ [10, 10]
            @ ?entry (enc ''1'') r3 @ ?entry (enc ''2'') r4 @ ?entry (enc ''3'') r5
            @ ?entry (enc ''4'') r6 @ ?entry (enc ''5'') r7"
    if "?h = [r1, r2, r3, r4, r5, r6, r7]"
    unfolding summary_of_seven [OF that] h7 e str_nat_small by (simp only: append_assoc)
  from 1 2 3 show ?thesis
    unfolding Let_def by blast
qed


theorem summary_shows_last_five_witness:
  "fst (get_conversation_summary init) = enc ''No conversation history available.'' \<and>
   (let r = (\<lambda>k. \<lparr>timestamp = enc ''2024-05-01 10:00:00'', question = [48 + k], answer = [65 + k],
                  processing_time = Float (enc ''0.5''), chain_type = enc ''qa''\<rparr>);
        s = \<lparr>conversation_history = map r [1, 2, 3, 4, 5, 6, 7], llm_calls = [], console = []\<rparr>;
        entry = (\<lambda>num r.
            enc ''**'' @ num @ enc ''. ['' @ timestamp r @ enc '']**'' @ [10]
            @ [10067] @ enc '' **Q:** '' @ take 100 (question r)
              @ (if length (question r) > 100 then enc ''...'' else []) @ [10]
            @ [9989] @ enc '' **A:** '' @ take 150 (answer r)
              @ (if length (answer r) > 150 then enc ''...'' else []) @ [10]
            @ [9201, 65039] @ enc '' *Processing time: '' @ str_float (processing_time r)
              @ enc ''s*'' @ [10, 10])
    in conversation_history s \<noteq> [] \<and>
       fst (get_conversation_summary s) =
         [128202] @ enc '' **Conversation Summary** (7 interactions)'' @ [10, 10]
         @ entry (enc ''1'') (r 3) @ entry (enc ''2'') (r 4) @ entry (enc ''3'') (r 5)
         @ entry (enc ''4'') (r 6) @ entry (enc ''5'') (r 7))"
proof -
  define r where "r = (\<lambda>k. \<lparr>timestamp = enc ''2024-05-01 10:00:00'', question = [48 + k],
     answer = [65 + k], processing_time = Float (enc ''0.5''), chain_type = enc ''qa''\<rparr>)"
  define s where "s = \<lparr>conversation_history = map r [1, 2, 3, 4, 5, 6, 7], llm_calls = [], console = []\<rparr>"
  have e: "conversation_history init = []"
    by (simp add: init_def)
  have h: "conversation_history s = [r 1, r 2, r 3, r 4, r 5, r 6, r 7]"
    by (simp add: s_def)
  have ne: "conversation_history s \<noteq> []"
    by (simp add: h)
  from summary_shows_last_five [of init] e
  have 1: "fst (get_conversation_summary init) = enc ''No conversation history available.''"
    unfolding Let_def by blast
  from summary_shows_last_five [of s "r 1" "r 2" "r 3" "r 4" "r 5" "r 6" "r 7"] h
  have 2: "(let entry = (\<lambda>num r.
            enc ''**'' @ num @ enc ''. ['' @ timestamp r @ enc '']**'' @ [10]
            @ [10067] @ enc '' **Q:** '' @ take 100 (question r)
              @ (if length (question r) > 100 then enc ''...'' else []) @ [10]
            @ [9989] @ enc '' **A:** '' @ take 150 (answer r)
              @ (if length (answer r) > 150 then enc ''...'' else []) @ [10]
            @ [9201, 65039] @ enc '' *Processing time: '' @ str_float (processing_time r)
              @ enc ''s*'' @ [10, 10])
    in fst (get_conversation_summary s) =
         [128202] @ enc '' **Conversation Summary** (7 interactions)'' @ [10, 10]
         @ entry (enc ''1'') (r 3) @ entry (enc ''2'') (r 4) @ entry (enc ''3'') (r 5)
         @ entry (enc ''4'') (r 6) @ entry (enc ''5'') (r 7))"
    unfolding Let_def by blast
  from 1 ne 2 show ?thesis
    unfolding Let_def r_def [symmetric] s_def [symmetric] by blast
qed

text \<open>
  C9. Every record among the last five of the history has an entry in the text, numbered
  between 1 and 5, in which the question is shown in full when it has at most 100
  characters, and as its first 100 characters followed by \<open>...\<close> when it has more; the
  answer likewise, with 150 characters.
\<close>

theorem summary_truncates_long_texts:
  assumes "r \<in> set (last_slice 5 (conversation_history s))"
  shows "\<exists>i \<in> {1..5}. sublist
     (enc ''**'' @ str_nat i @ enc ''. ['' @ timestamp r @ enc '']**'' @ [10]
      @ [10067] @ enc '' **Q:** ''
      @ (if length (question r) \<le> 100 then question r else take 100 (question r) @ enc ''...'')
      @ [10]
      @ [9989] @ enc '' **A:** ''
      @ (if length (answer r) \<le> 150 then answer r else take 150 (answer r) @ enc ''...'')
      @ [10]
      @ [9201, 65039] @ enc '' *Processing time: '' @ str_float (processing_time r) @ enc ''s*''
      @ [10, 10])
     (fst (get_conversation_summary s))"
proof -
  have "summary_entry i r =
      enc ''**'' @ str_nat i @ enc ''. ['' @ timestamp r @ enc '']**'' @ [10]
      @ [10067] @ enc '' **Q:** ''
      @ (if length (question r) \<le> 100 then question r else take 100 (question r) @ enc ''...'')
      @ [10]
      @ [9989] @ enc '' **A:** ''
      @ (if length (answer r) \<le> 150 then answer r else take 150 (answer r) @ enc ''...'')
      @ [10]
      @ [9201, 65039] @ enc '' *Processing time: '' @ str_float (processing_time r) @ enc ''s*''
      @ [10, 10]" for i
    unfolding summary_entry_def by (simp only: shown_text [symmetric] append_assoc)
  with entry_in_summary [OF assms] show ?thesis
    by simp
qed

theorem summary_truncates_long_texts_witness:
  "(let r = \<lparr>timestamp = enc ''2024-05-01 10:00:00'', question = replicate 101 65,
              answer = replicate 150 66, processing_time = Float (enc ''0.5''),
              chain_type = enc ''qa''\<rparr>;
        s = \<lparr>conversation_history = [r], llm_calls = [], console = []\<rparr>
    in r \<in> set (last_slice 5 (conversation_history s)) \<and>
       (\<exists>i \<in> {1..5}. sublist
          (enc ''**'' @ str_nat i @ enc ''. ['' @ enc ''2024-05-01 10:00:00'' @ enc '']**'' @ [10]
           @ [10067] @ enc '' **Q:** '' @ replicate 100 65 @ enc ''...'' @ [10]
           @ [9989] @ enc '' **A:** '' @ replicate 150 66 @ [10]
           @ [9201, 65039] @ enc '' *Processing time: '' @ enc ''0.5'' @ enc ''s*'' @ [10, 10])
          (fst (get_conversation_summary s))))"
proof -
  define r where "r = \<lparr>timestamp = enc ''2024-05-01 10:00:00'', question = replicate 101 65,
              answer = replicate 150 66, processing_time = Float (enc ''0.5''),
              chain_type = enc ''qa''\<rparr>"
  define s where "s = \<lparr>conversation_history = [r], llm_calls = [], console = []\<rparr>"
  have h: "r \<in> set (last_slice 5 (conversation_history s))"
    by (simp add: s_def last_slice_def)
  have f: "timestamp r = enc ''2024-05-01 10:00:00''"
    "(if length (question r) \<le> 100 then question r else take 100 (question r) @ enc ''...'')
       = replicate 100 65 @ enc ''...''"
    "(if length (answer r) \<le> 150 then answer r else take 150 (answer r) @ enc ''...'')
       = replicate 150 66"
    "str_float (processing_time r) = enc ''0.5''"
    by (simp_all add: r_def)
  from summary_truncates_long_texts [OF h] h show ?thesis
    unfolding f append_assoc Let_def r_def [symmetric] s_def [symmetric] by blast
qed

text \<open>
  C10. The formatter leaves the state as it was, and its text depends on the history
  only: two states with the same history give the same text.
\<close>

theorem summary_is_read_only:
  "snd (get_conversation_summary s) = s \<and>
   (conversation_history s = conversation_history s' \<longrightarrow>
      fst (get_conversation_summary s) = fst (get_conversation_summary s'))"
  by (simp add: get_conversation_summary_def Let_def)

theorem summary_is_read_only_witness:
  "(let r = \<lparr>timestamp = enc ''2024-05-01 10:00:00'', question = enc ''hi'',
              answer = enc ''hello'', processing_time = Float (enc ''0.5''),
              chain_type = enc ''qa''\<rparr>;
        s = \<lparr>conversation_history = [r], llm_calls = [], console = []\<rparr>;
        s' = \<lparr>conversation_history = [r], llm_calls = [enc ''hi''], console = [enc ''x'']\<rparr>
    in snd (get_conversation_summary s) = s \<and>
       conversation_history s = conversation_history s' \<and>
       fst (get_conversation_summary s) = fst (get_conversation_summary s'))"
proof -
  define r where "r = \<lparr>timestamp = enc ''2024-05-01 10:00:00'', question = enc ''hi'',
              answer = enc ''hello'', processing_time = Float (enc ''0.5''),
              chain_type = enc ''qa''\<rparr>"
  define s where "s = \<lparr>conversation_history = [r], llm_calls = [], console = []\<rparr>"
  define s' where
    "s' = \<lparr>conversation_history = [r], llm_calls = [enc ''hi''], console = [enc ''x'']\<rparr>"
  have h: "conversation_history s = conversation_history s'"
    by (simp add: s_def s'_def)
  from summary_is_read_only [of s s'] h show ?thesis
    unfolding Let_def r_def [symmetric] s_def [symmetric] s'_def [symmetric] by blast
qed

end
